theory Spec2Isabelle
  imports Complex_Main
begin

section \<open>Conventions of the embedding\<close>

text \<open>
  The TypeScript sources are embedded function by function.  A JavaScript \<open>number\<close> is
  modelled by an exact real (no rounding, no NaN, no infinities; where the source uses
  \<open>Infinity\<close> the model uses \<open>None\<close>).  Strings are lists of 8-bit characters.  Every
  reading of the clock or of the random source is an explicit input, collected in the
  record \<open>env\<close>.  File-system calls succeed unless the file read is absent, with one
  exception: from the \<open>await\<close> of a tick on, an append to the event log may throw (full disk,
  missing permission), and whether it does is an input of the model.
\<close>

type_synonym number = real

record env =
  clock_ms :: int        \<comment> \<open>\<open>Date.now()\<close>\<close>
  clock_iso :: string    \<comment> \<open>\<open>utcNowIso()\<close>\<close>
  uuid :: string         \<comment> \<open>\<open>crypto.randomUUID()\<close>\<close>
  commit_hours :: number \<comment> \<open>\<open>getLastCommitAge(repoDir).hours\<close>\<close>

section \<open>state.ts: the budget ledger\<close>

text \<open>The interface \<open>StateData\<close> of types.ts.\<close>

record StateData =
  createdAt :: string
  sessionId :: string
  spentUsd :: number
  spentCalls :: number
  spentTokensPrompt :: number
  spentTokensCompletion :: number
  currentBranch :: "string option"
  currentSha :: "string option"
  bgEnabled :: bool
  bgWakeupSec :: number
  lastInteractionAt :: string

text \<open>
  \<open>JSON.parse(raw) as Partial<StateData>\<close>: every field may be absent.  The two nullable
  fields can be present with the value \<open>null\<close>, hence the nested option.
\<close>

record PartialState =
  p_createdAt :: "string option"
  p_sessionId :: "string option"
  p_spentUsd :: "number option"
  p_spentCalls :: "number option"
  p_spentTokensPrompt :: "number option"
  p_spentTokensCompletion :: "number option"
  p_currentBranch :: "string option option"
  p_currentSha :: "string option option"
  p_bgEnabled :: "bool option"
  p_bgWakeupSec :: "number option"
  p_lastInteractionAt :: "string option"

text \<open>
  The file \<open>state/state.json\<close> of the data directory, seen through \<open>JSON.parse\<close>: absent
  (\<open>None\<close>, \<open>readFileSync\<close> throws), text that does not parse (\<open>Garbled\<close>), or a JSON
  value typed as the source types it (\<open>Json\<close>).
\<close>

datatype state_json = Garbled | Json PartialState

type_synonym state_file = "state_json option"

definition defaultState :: "env \<Rightarrow> StateData" where
  "defaultState e =
     \<lparr> createdAt = clock_iso e,
       sessionId = uuid e,
       spentUsd = 0,
       spentCalls = 0,
       spentTokensPrompt = 0,
       spentTokensCompletion = 0,
       currentBranch = None,
       currentSha = None,
       bgEnabled = False,
       bgWakeupSec = 300,
       lastInteractionAt = clock_iso e \<rparr>"

text \<open>The object spread \<open>{ ...d, ...obj }\<close>: a field of \<open>obj\<close> wins where it is present.\<close>

definition spread :: "StateData \<Rightarrow> PartialState \<Rightarrow> StateData" where
  "spread d obj =
     \<lparr> createdAt = (case p_createdAt obj of Some v \<Rightarrow> v | None \<Rightarrow> createdAt d),
       sessionId = (case p_sessionId obj of Some v \<Rightarrow> v | None \<Rightarrow> sessionId d),
       spentUsd = (case p_spentUsd obj of Some v \<Rightarrow> v | None \<Rightarrow> spentUsd d),
       spentCalls = (case p_spentCalls obj of Some v \<Rightarrow> v | None \<Rightarrow> spentCalls d),
       spentTokensPrompt =
         (case p_spentTokensPrompt obj of Some v \<Rightarrow> v | None \<Rightarrow> spentTokensPrompt d),
       spentTokensCompletion =
         (case p_spentTokensCompletion obj of Some v \<Rightarrow> v | None \<Rightarrow> spentTokensCompletion d),
       currentBranch = (case p_currentBranch obj of Some v \<Rightarrow> v | None \<Rightarrow> currentBranch d),
       currentSha = (case p_currentSha obj of Some v \<Rightarrow> v | None \<Rightarrow> currentSha d),
       bgEnabled = (case p_bgEnabled obj of Some v \<Rightarrow> v | None \<Rightarrow> bgEnabled d),
       bgWakeupSec = (case p_bgWakeupSec obj of Some v \<Rightarrow> v | None \<Rightarrow> bgWakeupSec d),
       lastInteractionAt =
         (case p_lastInteractionAt obj of Some v \<Rightarrow> v | None \<Rightarrow> lastInteractionAt d) \<rparr>"

text \<open>\<open>JSON.stringify(state, null, 2)\<close> read back by \<open>JSON.parse\<close>: every field present.\<close>

definition stringify :: "StateData \<Rightarrow> PartialState" where
  "stringify st =
     \<lparr> p_createdAt = Some (createdAt st),
       p_sessionId = Some (sessionId st),
       p_spentUsd = Some (spentUsd st),
       p_spentCalls = Some (spentCalls st),
       p_spentTokensPrompt = Some (spentTokensPrompt st),
       p_spentTokensCompletion = Some (spentTokensCompletion st),
       p_currentBranch = Some (currentBranch st),
       p_currentSha = Some (currentSha st),
       p_bgEnabled = Some (bgEnabled st),
       p_bgWakeupSec = Some (bgWakeupSec st),
       p_lastInteractionAt = Some (lastInteractionAt st) \<rparr>"

text \<open>\<open>saveState\<close> replaces the file by the serialised state (through \<open>writeText\<close>).\<close>

definition saveState :: "state_file \<Rightarrow> StateData \<Rightarrow> state_file" where
  "saveState disk st = Some (Json (stringify st))"

text \<open>
  \<open>loadState\<close> returns the state and the file as it leaves it: untouched on the
  \<open>try\<close> path, rewritten with the defaults on the \<open>catch\<close> path.
\<close>

definition loadState :: "env \<Rightarrow> state_file \<Rightarrow> StateData \<times> state_file" where
  "loadState e disk =
     (case disk of
        Some (Json obj) \<Rightarrow> (spread (defaultState e) obj, disk)
      | _ \<Rightarrow> (let st = defaultState e in (st, saveState disk st)))"

definition updateBudget ::
  "env \<Rightarrow> state_file \<Rightarrow> number \<Rightarrow> number \<Rightarrow> number \<Rightarrow> number \<Rightarrow> StateData \<times> state_file" where
  "updateBudget e disk costUsd turns promptTokens completionTokens =
     (let (st, disk1) = loadState e disk;
          st1 = st\<lparr> spentUsd := spentUsd st + costUsd \<rparr>;
          st2 = st1\<lparr> spentCalls := spentCalls st1 + turns \<rparr>;
          st3 = st2\<lparr> spentTokensPrompt := spentTokensPrompt st2 + promptTokens \<rparr>;
          st4 = st3\<lparr> spentTokensCompletion := spentTokensCompletion st3 + completionTokens \<rparr>
      in (st4, saveState disk1 st4))"

text \<open>\<open>budgetRemaining\<close>; \<open>None\<close> stands for \<open>Infinity\<close>.\<close>

definition budgetRemaining :: "StateData \<Rightarrow> number \<Rightarrow> number option" where
  "budgetRemaining state limitUsd =
     (if limitUsd \<le> 0 then None else Some (max 0 (limitUsd - spentUsd state)))"

text \<open>All eleven fields of a parsed object are present.\<close>

definition all_fields_present :: "PartialState \<Rightarrow> bool" where
  "all_fields_present obj \<longleftrightarrow>
     p_createdAt obj \<noteq> None \<and> p_sessionId obj \<noteq> None \<and> p_spentUsd obj \<noteq> None \<and>
     p_spentCalls obj \<noteq> None \<and> p_spentTokensPrompt obj \<noteq> None \<and>
     p_spentTokensCompletion obj \<noteq> None \<and> p_currentBranch obj \<noteq> None \<and>
     p_currentSha obj \<noteq> None \<and> p_bgEnabled obj \<noteq> None \<and> p_bgWakeupSec obj \<noteq> None \<and>
     p_lastInteractionAt obj \<noteq> None"

section \<open>utils.ts: file helpers\<close>

text \<open>
  A path is the list of its segments, already normalised.  \<open>path_join\<close> is
  \<open>path.join(dir, rel)\<close> on POSIX: \<open>rel\<close> is cut at every \<open>/\<close>, empty and \<open>.\<close> segments
  are dropped and \<open>..\<close> climbs one directory.  A file path always has a last segment.
\<close>

type_synonym path = "string list"

fun split_slash :: "string \<Rightarrow> string list" where
  "split_slash [] = [[]]"
| "split_slash (c # cs) =
     (if c = CHR ''/'' then [] # split_slash cs
      else (case split_slash cs of s # ss \<Rightarrow> (c # s) # ss | [] \<Rightarrow> [[c]]))"

definition enter :: "path \<Rightarrow> string \<Rightarrow> path" where
  "enter p seg =
     (if seg = [] \<or> seg = ''.'' then p else if seg = ''..'' then butlast p else p @ [seg])"

definition path_join :: "path \<Rightarrow> string \<Rightarrow> path" where
  "path_join dir rel = foldl enter dir (split_slash rel)"

text \<open>
  The calls of \<open>node:fs\<close> that the helpers make.  A file system maps the path of every
  regular file to its text.
\<close>

datatype fs_call =
    Mkdir path
  | ExistsSync path
  | ReadFile path
  | WriteFile path string
  | AppendFile path string
  | Rename path path

type_synonym fs = "path \<Rightarrow> string option"

fun run_call :: "fs_call \<Rightarrow> fs \<Rightarrow> fs" where
  "run_call (Mkdir d) f = f"
| "run_call (ExistsSync p) f = f"
| "run_call (ReadFile p) f = f"
| "run_call (WriteFile p c) f = f(p \<mapsto> c)"
| "run_call (AppendFile p c) f = f(p \<mapsto> (case f p of None \<Rightarrow> c | Some old \<Rightarrow> old @ c))"
| "run_call (Rename a b) f = (case f a of None \<Rightarrow> f | Some c \<Rightarrow> (f(a := None))(b \<mapsto> c))"

definition run_calls :: "fs_call list \<Rightarrow> fs \<Rightarrow> fs" where
  "run_calls cs f = foldl (\<lambda>g c. run_call c g) f cs"

text \<open>
  A call cut short by a crash after \<open>n\<close> characters reached the file: \<open>writeFileSync\<close>
  has truncated the file and written a prefix, \<open>appendFileSync\<close> has added a prefix, and
  \<open>renameSync\<close> (atomic) has not happened.
\<close>

fun torn_call :: "fs_call \<Rightarrow> nat \<Rightarrow> fs \<Rightarrow> fs" where
  "torn_call (WriteFile p c) n f = f(p \<mapsto> take n c)"
| "torn_call (AppendFile p c) n f =
     f(p \<mapsto> (case f p of None \<Rightarrow> take n c | Some old \<Rightarrow> old @ take n c))"
| "torn_call (Rename a b) n f = f"
| "torn_call (Mkdir d) n f = f"
| "torn_call (ExistsSync p) n f = f"
| "torn_call (ReadFile p) n f = f"

text \<open>The file system found after a crash: \<open>k\<close> calls completed, the next one torn.\<close>

definition crash_state :: "fs_call list \<Rightarrow> nat \<Rightarrow> nat \<Rightarrow> fs \<Rightarrow> fs" where
  "crash_state cs k n f =
     (let g = run_calls (take k cs) f
      in if k < length cs then torn_call (cs ! k) n g else g)"

text \<open>The paths a call names.\<close>

fun paths_of :: "fs_call \<Rightarrow> path list" where
  "paths_of (Mkdir d) = [d]"
| "paths_of (ExistsSync p) = [p]"
| "paths_of (ReadFile p) = [p]"
| "paths_of (WriteFile p c) = [p]"
| "paths_of (AppendFile p c) = [p]"
| "paths_of (Rename a b) = [a, b]"

text \<open>\<open>filePath + ".tmp." + process.pid\<close>: the suffix lands on the last segment.\<close>

definition tmp_path :: "string \<Rightarrow> path \<Rightarrow> path" where
  "tmp_path pid filePath = butlast filePath @ [last filePath @ ''.tmp.'' @ pid]"

definition writeText :: "string \<Rightarrow> path \<Rightarrow> string \<Rightarrow> fs_call list" where
  "writeText pid filePath content =
     [Mkdir (butlast filePath),
      WriteFile (tmp_path pid filePath) content,
      Rename (tmp_path pid filePath) filePath]"

text \<open>\<open>appendJsonl\<close>; \<open>json\<close> is \<open>JSON.stringify(entry)\<close>.\<close>

definition appendJsonl :: "path \<Rightarrow> string \<Rightarrow> fs_call list" where
  "appendJsonl filePath json =
     [Mkdir (butlast filePath), AppendFile filePath (json @ [CHR 0x0A])]"

subsection \<open>state.ts at the level of files\<close>

text \<open>
  \<open>saveState\<close> is one call of \<open>writeText\<close> on \<open>path.join(dataDir, "state", "state.json")\<close>;
  \<open>json\<close> is the serialised state.
\<close>

definition statePath :: "path \<Rightarrow> path" where
  "statePath dataDir = path_join (path_join dataDir ''state'') ''state.json''"

definition saveState_calls :: "string \<Rightarrow> path \<Rightarrow> string \<Rightarrow> fs_call list" where
  "saveState_calls pid dataDir json = writeText pid (statePath dataDir) json"

section \<open>memory.ts: knowledge topics\<close>

text \<open>
  \<open>String.prototype.trim\<close> on 8-bit characters: tab, line feed, vertical tab, form feed,
  carriage return, space and no-break space.
\<close>

definition is_space :: "char \<Rightarrow> bool" where
  "is_space c \<longleftrightarrow> (of_char c :: nat) \<in> {9, 10, 11, 12, 13, 32, 160}"

definition trim :: "string \<Rightarrow> string" where
  "trim s = rev (dropWhile is_space (rev (dropWhile is_space s)))"

fun str_includes :: "string \<Rightarrow> string \<Rightarrow> bool" where
  "str_includes [] sub = (sub = [])"
| "str_includes (c # cs) sub = (take (length sub) (c # cs) = sub \<or> str_includes cs sub)"

definition is_alnum :: "char \<Rightarrow> bool" where
  "is_alnum c \<longleftrightarrow>
     (let n = (of_char c :: nat)
      in (97 \<le> n \<and> n \<le> 122) \<or> (65 \<le> n \<and> n \<le> 90) \<or> (48 \<le> n \<and> n \<le> 57))"

definition is_topic_char :: "char \<Rightarrow> bool" where
  "is_topic_char c \<longleftrightarrow> is_alnum c \<or> c = CHR ''_'' \<or> c = CHR ''.'' \<or> c = CHR ''-''"

text \<open>
  \<open>VALID_TOPIC = /^[a-zA-Z0-9][a-zA-Z0-9_.-]{0,98}[a-zA-Z0-9]$|^[a-zA-Z0-9]$/\<close>
\<close>

definition VALID_TOPIC :: "string \<Rightarrow> bool" where
  "VALID_TOPIC t =
     (case t of
        [] \<Rightarrow> False
      | [c] \<Rightarrow> is_alnum c
      | c # rest \<Rightarrow>
          is_alnum c \<and> length (butlast rest) \<le> 98 \<and> list_all is_topic_char (butlast rest) \<and>
          is_alnum (last rest))"

definition toLowerCase :: "string \<Rightarrow> string" where
  "toLowerCase s =
     map (\<lambda>c. let n = (of_char c :: nat) in if 65 \<le> n \<and> n \<le> 90 then char_of (n + 32) else c) s"

definition RESERVED_TOPICS :: "string set" where
  "RESERVED_TOPICS = {''_index'', ''con'', ''prn'', ''aux'', ''nul''}"

text \<open>\<open>sanitizeTopic\<close>: \<open>Inl\<close> carries the message of the \<open>Error\<close> thrown.\<close>

definition sanitizeTopic :: "string \<Rightarrow> string + string" where
  "sanitizeTopic topic0 =
     (let topic = trim topic0
      in if topic = [] then Inl ''Topic must be a non-empty string''
         else if str_includes topic ''/'' \<or> str_includes topic [CHR 0x5C] \<or> str_includes topic ''..''
           then Inl (''Invalid characters in topic: '' @ topic)
         else if \<not> VALID_TOPIC topic
           then Inl (''Invalid topic name: '' @ topic @
                     ''. Use alphanumeric, underscore, hyphen, dot.'')
         else if toLowerCase topic \<in> RESERVED_TOPICS
           then Inl (''Reserved topic name: '' @ topic)
         else Inr topic)"

definition knowledgeDir :: "path \<Rightarrow> path" where
  "knowledgeDir dataDir = path_join dataDir ''memory/knowledge''"

text \<open>
  \<open>knowledgeRead\<close> and \<open>knowledgeWrite\<close> return their string together with the calls of
  \<open>node:fs\<close> they made, in order.
\<close>

definition knowledgeRead :: "path \<Rightarrow> fs \<Rightarrow> string \<Rightarrow> string \<times> fs_call list" where
  "knowledgeRead dataDir f topic =
     (case sanitizeTopic topic of
        Inl message \<Rightarrow> (''Warning: Invalid topic: '' @ message, [])
      | Inr sanitized \<Rightarrow>
          (let filePath = path_join (knowledgeDir dataDir) (sanitized @ ''.md'')
           in case f filePath of
                None \<Rightarrow>
                  (''Topic '' @ [CHR 0x27] @ sanitized @ [CHR 0x27] @
                   '' not found. Use knowledge_list to see available topics.'',
                   [ExistsSync filePath])
              | Some body \<Rightarrow> (body, [ExistsSync filePath, ReadFile filePath])))"

datatype write_mode = Overwrite | Append

definition mode_name :: "write_mode \<Rightarrow> string" where
  "mode_name m = (case m of Overwrite \<Rightarrow> ''overwrite'' | Append \<Rightarrow> ''append'')"

text \<open>
  \<open>updateIndexEntry\<close>.  The new text of the index (header detection, filtering of the old
  entry, summary of the topic, sorting) is a pure function of the old index text, the
  topic and the topic's text; it is the parameter \<open>index_text\<close>, since it does not decide
  which files are touched.
\<close>

definition updateIndexEntry ::
  "(string option \<Rightarrow> string \<Rightarrow> string option \<Rightarrow> string) \<Rightarrow> string \<Rightarrow> path \<Rightarrow> fs \<Rightarrow> string
     \<Rightarrow> fs_call list" where
  "updateIndexEntry index_text pid kdir f topic =
     (let indexPath = path_join kdir ''_index.md'';
          topicPath = path_join kdir (topic @ ''.md'')
      in [Mkdir kdir, ExistsSync indexPath] @
         (if f indexPath \<noteq> None then [ReadFile indexPath] else []) @
         [ExistsSync topicPath] @
         (if f topicPath \<noteq> None then [ReadFile topicPath] else []) @
         writeText pid indexPath (index_text (f indexPath) topic (f topicPath)))"

definition knowledgeWrite ::
  "(string option \<Rightarrow> string \<Rightarrow> string option \<Rightarrow> string) \<Rightarrow> string \<Rightarrow> path \<Rightarrow> fs \<Rightarrow> string
     \<Rightarrow> string \<Rightarrow> write_mode \<Rightarrow> string \<times> fs_call list" where
  "knowledgeWrite index_text pid dataDir f topic content m =
     (case sanitizeTopic topic of
        Inl message \<Rightarrow> (''Warning: Invalid topic: '' @ message, [])
      | Inr sanitized \<Rightarrow>
          (let kdir = knowledgeDir dataDir;
               filePath = path_join kdir (sanitized @ ''.md'');
               calls1 =
                 Mkdir kdir #
                 (if m = Append
                  then (case f filePath of
                          None \<Rightarrow> ExistsSync filePath # writeText pid filePath ([] @ content)
                        | Some old \<Rightarrow>
                            (let existing =
                                   (if length old > 0 \<and> last old \<noteq> CHR 0x0A
                                    then old @ [CHR 0x0A] else old)
                             in ExistsSync filePath # ReadFile filePath #
                                writeText pid filePath (existing @ content)))
                  else writeText pid filePath content);
               calls2 = updateIndexEntry index_text pid kdir (run_calls calls1 f) sanitized
           in (''Knowledge '' @ [CHR 0x27] @ sanitized @ [CHR 0x27] @ '' saved ('' @
               mode_name m @ '').'',
               calls1 @ calls2)))"

text \<open>
  \<open>appendLog\<close> of the Memory class writes through \<open>appendJsonl\<close>; the rotation before it
  renames and unlinks whole files and writes no text, and is left out.
\<close>

definition logsPath :: "path \<Rightarrow> string \<Rightarrow> path" where
  "logsPath dataDir name = path_join (path_join dataDir ''logs'') name"

definition appendLog :: "path \<Rightarrow> string \<Rightarrow> string \<Rightarrow> fs_call list" where
  "appendLog dataDir logName json = appendJsonl (logsPath dataDir logName) json"

text \<open>\<open>saveScratchpad\<close> and \<open>saveIdentity\<close> of the Memory class.\<close>

definition memoryPath :: "path \<Rightarrow> string \<Rightarrow> path" where
  "memoryPath dataDir rel = path_join (path_join dataDir ''memory'') rel"

definition saveScratchpad :: "string \<Rightarrow> path \<Rightarrow> string \<Rightarrow> fs_call list" where
  "saveScratchpad pid dataDir content = writeText pid (memoryPath dataDir ''scratchpad.md'') content"

definition saveIdentity :: "string \<Rightarrow> path \<Rightarrow> string \<Rightarrow> fs_call list" where
  "saveIdentity pid dataDir content = writeText pid (memoryPath dataDir ''identity.md'') content"

section \<open>mcp-server.ts and consciousness.ts: the scheduler\<close>

text \<open>The fields of \<open>AppConfig\<close> that the scheduler reads.\<close>

record AppConfig =
  budgetLimitUsd :: number
  bgBudgetPct :: number
  defaultWakeupSec :: number
  deepMode :: bool    \<comment> \<open>\<open>features.deepMode\<close>\<close>

definition DEEP_TICK_INTERVAL :: nat where
  "DEEP_TICK_INTERVAL = 3"

datatype mode = Light | Deep

text \<open>The entries that the scheduler appends to \<open>events.jsonl\<close>, time stamp first.\<close>

datatype LogEntry =
    consciousness_wake string mode number "number option"
  | consciousness_done string mode number number
  | consciousness_error string string

text \<open>
  The object of class \<open>BackgroundConsciousness\<close> (first block of fields) together with
  the part of the process it acts on (second block): the timeouts registered with the
  event loop and not yet fired or cleared, each with the handle \<open>setTimeout\<close> returned and
  its delay in milliseconds; the next fresh handle; the state file; the event log in
  append order.  The optional hook \<open>onLog\<close> is unset.
\<close>

record sched =
  timer :: "nat option"
  paused :: bool
  running :: bool
  wakeupSec :: number
  observations :: "string list"
  tickCount :: nat
  lastTickAt :: int
  timeouts :: "(nat \<times> number) list"    \<comment> \<open>event loop: pending timeouts\<close>
  next_handle :: nat                      \<comment> \<open>event loop: next handle of \<open>setTimeout\<close>\<close>
  state_file :: state_file                \<comment> \<open>\<open>state/state.json\<close>\<close>
  events :: "LogEntry list"               \<comment> \<open>\<open>logs/events.jsonl\<close>\<close>

definition constructor :: "AppConfig \<Rightarrow> state_file \<Rightarrow> sched" where
  "constructor config disk =
     \<lparr> timer = None, paused = False, running = False,
       wakeupSec = defaultWakeupSec config,
       observations = [], tickCount = 0, lastTickAt = 0,
       timeouts = [], next_handle = 0, state_file = disk, events = [] \<rparr>"

definition setTimeout :: "number \<Rightarrow> sched \<Rightarrow> nat \<times> sched" where
  "setTimeout delay s =
     (next_handle s,
      s\<lparr> timeouts := timeouts s @ [(next_handle s, delay)], next_handle := Suc (next_handle s) \<rparr>)"

definition clearTimeout :: "nat \<Rightarrow> sched \<Rightarrow> sched" where
  "clearTimeout h s = s\<lparr> timeouts := filter (\<lambda>t. fst t \<noteq> h) (timeouts s) \<rparr>"

definition scheduleNext :: "sched \<Rightarrow> sched" where
  "scheduleNext s =
     (if \<not> running s then s
      else (let (h, s1) = setTimeout (wakeupSec s * 1000) s in s1\<lparr> timer := Some h \<rparr>))"

definition start :: "env \<Rightarrow> sched \<Rightarrow> sched" where
  "start e s =
     (if running s then s
      else (let s1 = s\<lparr> running := True \<rparr>;
                s2 = s1\<lparr> paused := False \<rparr>;
                (st, disk) = loadState e (state_file s2);
                s3 = s2\<lparr> state_file := saveState disk (st\<lparr> bgEnabled := True \<rparr>) \<rparr>
            in scheduleNext s3))"

definition stop :: "env \<Rightarrow> sched \<Rightarrow> sched" where
  "stop e s =
     (let s1 = s\<lparr> running := False \<rparr>;
          s2 = (case timer s1 of
                  Some h \<Rightarrow> (clearTimeout h s1)\<lparr> timer := None \<rparr>
                | None \<Rightarrow> s1);
          (st, disk) = loadState e (state_file s2)
      in s2\<lparr> state_file := saveState disk (st\<lparr> bgEnabled := False \<rparr>) \<rparr>)"

definition pause :: "sched \<Rightarrow> sched" where
  "pause s = s\<lparr> paused := True \<rparr>"

definition resume :: "sched \<Rightarrow> sched" where
  "resume s =
     (if \<not> running s then s
      else (let s1 = s\<lparr> paused := False \<rparr>
            in if timer s1 = None then scheduleNext s1 else s1))"

definition injectObservation :: "string \<Rightarrow> sched \<Rightarrow> sched" where
  "injectObservation text s = s\<lparr> observations := observations s @ [text] \<rparr>"

definition isHealthy :: "env \<Rightarrow> sched \<Rightarrow> bool" where
  "isHealthy e s =
     (if \<not> running s then True
      else if lastTickAt s = 0 then True
      else (let overdueMs = wakeupSec s * 1000 * 3
            in real_of_int (clock_ms e - lastTickAt s) < overdueMs))"

text \<open>The callback \<open>onSetWakeup\<close> of the constructor.\<close>

definition onSetWakeup :: "env \<Rightarrow> number \<Rightarrow> sched \<Rightarrow> sched" where
  "onSetWakeup e sec s =
     (let s1 = s\<lparr> wakeupSec := sec \<rparr>;
          (st, disk) = loadState e (state_file s1)
      in s1\<lparr> state_file := saveState disk (st\<lparr> bgWakeupSec := sec \<rparr>) \<rparr>)"

text \<open>
  The tool \<open>set_next_wakeup\<close>: its schema \<open>z.number().min(30).max(7200)\<close> rejects the call
  (\<open>Inl\<close>) before the handler runs; the handler calls \<open>onSetWakeup\<close>.
\<close>

definition set_next_wakeup :: "env \<Rightarrow> number \<Rightarrow> sched \<Rightarrow> string + sched" where
  "set_next_wakeup e seconds s =
     (if 30 \<le> seconds \<and> seconds \<le> 7200 then Inr (onSetWakeup e seconds s)
      else Inl ''Invalid arguments'')"

text \<open>
  \<open>bgBudgetLimit\<close> of \<open>tick\<close> (\<open>None\<close> for \<open>Infinity\<close>) and the test
  \<open>state.spentUsd > bgBudgetLimit\<close>.
\<close>

definition bgBudgetLimit :: "AppConfig \<Rightarrow> number option" where
  "bgBudgetLimit config =
     (if budgetLimitUsd config > 0 then Some (budgetLimitUsd config * bgBudgetPct config / 100)
      else None)"

definition exceeds :: "number \<Rightarrow> number option \<Rightarrow> bool" where
  "exceeds spent limit = (case limit of None \<Rightarrow> False | Some l \<Rightarrow> spent > l)"

text \<open>
  \<open>think\<close> and \<open>thinkDeep\<close> up to the point where they await the query: the pending
  observations are spliced out and the wake entry is appended.  The text of the prompt and
  the options of the query are not modelled.
\<close>

definition think_begin :: "env \<Rightarrow> sched \<Rightarrow> sched" where
  "think_begin e s =
     (let s1 = (if length (observations s) > 0 then s\<lparr> observations := [] \<rparr> else s)
      in s1\<lparr> events := events s1 @ [consciousness_wake (clock_iso e) Light (wakeupSec s1) None] \<rparr>)"

definition thinkDeep_begin :: "env \<Rightarrow> sched \<Rightarrow> sched" where
  "thinkDeep_begin e s =
     (let s1 = (if length (observations s) > 0 then s\<lparr> observations := [] \<rparr> else s)
      in s1\<lparr> events := events s1 @
                [consciousness_wake (clock_iso e) Deep (wakeupSec s1) (Some (commit_hours e))] \<rparr>)"

text \<open>
  \<open>tick\<close> up to its \<open>await\<close>.  The second component tells whether an episode is now in
  flight, and in which mode.
\<close>

definition tick_begin :: "AppConfig \<Rightarrow> env \<Rightarrow> sched \<Rightarrow> sched \<times> mode option" where
  "tick_begin config e s =
     (if \<not> running s \<or> paused s
      then ((if running s \<and> \<not> paused s then scheduleNext s else s), None)
      else (let (state, disk) = loadState e (state_file s);
                s1 = s\<lparr> state_file := disk \<rparr>
            in if exceeds (spentUsd state) (bgBudgetLimit config)
               then (scheduleNext s1, None)
               else (let s2 = s1\<lparr> tickCount := tickCount s1 + 1 \<rparr>;
                         isDeep = (deepMode config \<and> tickCount s2 mod DEEP_TICK_INTERVAL = 0)
                     in if isDeep then (thinkDeep_begin e s2, Some Deep)
                        else (think_begin e s2, Some Light))))"

text \<open>The callback given to \<open>setTimeout\<close> by \<open>scheduleNext\<close>, run for the handle \<open>h\<close>.\<close>

definition timer_fires :: "AppConfig \<Rightarrow> env \<Rightarrow> nat \<Rightarrow> sched \<Rightarrow> sched \<times> mode option" where
  "timer_fires config e h s =
     (if h \<notin> fst ` set (timeouts s) then (s, None)
      else tick_begin config e ((clearTimeout h s)\<lparr> timer := None \<rparr>))"

text \<open>
  How the awaited query ends: the stream ends (\<open>Returned\<close>), the abort controller fires
  (\<open>Aborted\<close>), or another exception is thrown (\<open>Threw\<close>, with \<open>err.message\<close>).  The numbers
  are \<open>costUsd\<close> and \<open>turns\<close> as last assigned.
\<close>

datatype query_end = Returned number number | Aborted number number | Threw string

text \<open>
  \<open>memory.appendLog("events.jsonl", entry)\<close> as called from the \<open>await\<close> of a tick on.  Its
  \<open>mkdirSync\<close> and \<open>appendFileSync\<close> are not guarded: \<open>io\<close> is the message of the error they
  throw, if they do, and nothing is written then.  The result is the exception that leaves
  the call, if any, and the state left behind.
\<close>

definition appendLog_events :: "string option \<Rightarrow> LogEntry \<Rightarrow> sched \<Rightarrow> string option \<times> sched" where
  "appendLog_events io entry s =
     (case io of
        None \<Rightarrow> (None, s\<lparr> events := events s @ [entry] \<rparr>)
      | Some err \<Rightarrow> (Some err, s))"

text \<open>
  The rest of \<open>think\<close> and \<open>thinkDeep\<close>: the exception that leaves the function, if any
  (the one of the query rethrown, or the one of the log), and the state left behind.
\<close>

definition think_finish ::
  "string option \<Rightarrow> env \<Rightarrow> mode \<Rightarrow> number \<Rightarrow> number \<Rightarrow> sched \<Rightarrow> string option \<times> sched" where
  "think_finish io e m costUsd turns s =
     (let s1 = (if costUsd > 0
                then s\<lparr> state_file := snd (updateBudget e (state_file s) costUsd turns 0 0) \<rparr>
                else s)
      in appendLog_events io (consciousness_done (clock_iso e) m costUsd turns) s1)"

definition think_end ::
  "string option \<Rightarrow> env \<Rightarrow> mode \<Rightarrow> query_end \<Rightarrow> sched \<Rightarrow> string option \<times> sched" where
  "think_end io e m q s =
     (case q of
        Returned costUsd turns \<Rightarrow> think_finish io e m costUsd turns s
      | Aborted costUsd turns \<Rightarrow> think_finish io e m costUsd turns s
      | Threw message \<Rightarrow> (Some message, s))"

text \<open>
  The \<open>catch\<close> block of \<open>tick\<close>: \<open>this.log\<close> (nothing, the hook being unset) and then
  \<open>memory.appendLog\<close> of the error entry, which may throw in its turn.
\<close>

definition tick_catch :: "string option \<Rightarrow> env \<Rightarrow> string \<Rightarrow> sched \<Rightarrow> string option \<times> sched" where
  "tick_catch io e message s =
     appendLog_events io (consciousness_error (clock_iso e) message) s"

text \<open>The two statements after the \<open>try\<close>.\<close>

definition tick_after :: "env \<Rightarrow> sched \<Rightarrow> sched" where
  "tick_after e s = scheduleNext (s\<lparr> lastTickAt := clock_ms e \<rparr>)"

text \<open>
  \<open>tick\<close> from its \<open>await\<close> on, for an episode in flight in mode \<open>m\<close>.  The first component
  is \<open>None\<close> when the promise of \<open>tick\<close> is fulfilled, and the error when it is rejected: an
  exception that leaves the \<open>catch\<close> block leaves \<open>tick\<close>, past the two statements after the
  \<open>try\<close>.  The callback of the timeout does not handle the rejection.
\<close>

definition tick_end ::
  "string option \<Rightarrow> env \<Rightarrow> mode \<Rightarrow> query_end \<Rightarrow> sched \<Rightarrow> string option \<times> sched" where
  "tick_end io e m q s =
     (case think_end io e m q s of
        (None, s1) \<Rightarrow> (None, tick_after e s1)
      | (Some message, s1) \<Rightarrow>
          (case tick_catch io e message s1 of
             (None, s2) \<Rightarrow> (None, tick_after e s2)
           | (Some err, s2) \<Rightarrow> (Some err, s2)))"

text \<open>
  What can happen to a scheduler, one event at a time: the calls of its interface, the tool
  call, a timeout firing, and an episode in flight coming to its end, with the event log
  writable (\<open>Finish\<close>) or failing with the error given (\<open>FinishLogFails\<close>).
\<close>

datatype action =
    Start | Stop | Pause | Resume
  | Inject string
  | SetWakeup number
  | Fire nat
  | Finish mode query_end
  | FinishLogFails mode query_end string

definition step :: "AppConfig \<Rightarrow> env \<Rightarrow> action \<Rightarrow> sched \<Rightarrow> sched" where
  "step config e a s =
     (case a of
        Start \<Rightarrow> start e s
      | Stop \<Rightarrow> stop e s
      | Pause \<Rightarrow> pause s
      | Resume \<Rightarrow> resume s
      | Inject text \<Rightarrow> injectObservation text s
      | SetWakeup sec \<Rightarrow> (case set_next_wakeup e sec s of Inl err \<Rightarrow> s | Inr s1 \<Rightarrow> s1)
      | Fire h \<Rightarrow> fst (timer_fires config e h s)
      | Finish m q \<Rightarrow> snd (tick_end None e m q s)
      | FinishLogFails m q err \<Rightarrow> snd (tick_end (Some err) e m q s))"

definition run :: "AppConfig \<Rightarrow> env \<Rightarrow> action list \<Rightarrow> sched \<Rightarrow> sched" where
  "run config e as s = foldl (\<lambda>t a. step config e a t) s as"

text \<open>The bounds of the tool's schema.\<close>

definition wakeup_in_range :: "number \<Rightarrow> bool" where
  "wakeup_in_range w \<longleftrightarrow> 30 \<le> w \<and> w \<le> 7200"

section \<open>Predicates used to state the properties\<close>

text \<open>
  A field of the object returned by \<open>loadState\<close> is merged when it is the stored value where
  the file has the field, and the default where it has not.
\<close>

definition merged :: "'a option \<Rightarrow> 'a \<Rightarrow> 'a \<Rightarrow> bool" where
  "merged stored dflt result = (case stored of Some v \<Rightarrow> result = v | None \<Rightarrow> result = dflt)"

definition merged_fields :: "StateData \<Rightarrow> PartialState \<Rightarrow> StateData \<Rightarrow> bool" where
  "merged_fields d obj r \<longleftrightarrow>
     merged (p_createdAt obj) (createdAt d) (createdAt r) \<and>
     merged (p_sessionId obj) (sessionId d) (sessionId r) \<and>
     merged (p_spentUsd obj) (spentUsd d) (spentUsd r) \<and>
     merged (p_spentCalls obj) (spentCalls d) (spentCalls r) \<and>
     merged (p_spentTokensPrompt obj) (spentTokensPrompt d) (spentTokensPrompt r) \<and>
     merged (p_spentTokensCompletion obj) (spentTokensCompletion d) (spentTokensCompletion r) \<and>
     merged (p_currentBranch obj) (currentBranch d) (currentBranch r) \<and>
     merged (p_currentSha obj) (currentSha d) (currentSha r) \<and>
     merged (p_bgEnabled obj) (bgEnabled d) (bgEnabled r) \<and>
     merged (p_bgWakeupSec obj) (bgWakeupSec d) (bgWakeupSec r) \<and>
     merged (p_lastInteractionAt obj) (lastInteractionAt d) (lastInteractionAt r)"

text \<open>
  What a crash may leave of a file that is replaced atomically: its text before the
  operation, or its text after it.
\<close>

definition old_or_new :: "string option \<Rightarrow> string option \<Rightarrow> string option \<Rightarrow> bool" where
  "old_or_new before after found \<longleftrightarrow> found = before \<or> found = after"

text \<open>
  A list of calls writes by temporary file and rename when it appends to no file and every
  \<open>writeFileSync\<close> is followed at once by the \<open>renameSync\<close> of the file written onto another
  path.
\<close>

fun temp_then_rename :: "fs_call list \<Rightarrow> bool" where
  "temp_then_rename [] = True"
| "temp_then_rename (WriteFile q t # Rename a b # cs) = (q = a \<and> a \<noteq> b \<and> temp_then_rename cs)"
| "temp_then_rename (WriteFile q t # cs) = False"
| "temp_then_rename (AppendFile q t # cs) = False"
| "temp_then_rename (c # cs) = temp_then_rename cs"

text \<open>The topic names that the specification calls invalid.\<close>

definition invalid_topic :: "string \<Rightarrow> bool" where
  "invalid_topic topic0 \<longleftrightarrow>
     (let t = trim topic0
      in t = [] \<or> CHR ''/'' \<in> set t \<or> CHR 0x5C \<in> set t \<or> str_includes t ''..'' \<or>
         \<not> VALID_TOPIC t \<or> toLowerCase t \<in> RESERVED_TOPICS)"

text \<open>A path lies in a directory when it is the directory or one of its entries.\<close>

definition lies_in :: "path \<Rightarrow> path \<Rightarrow> bool" where
  "lies_in dir p \<longleftrightarrow> p = dir \<or> (p \<noteq> [] \<and> butlast p = dir)"

definition all_lie_in :: "path \<Rightarrow> fs_call list \<Rightarrow> bool" where
  "all_lie_in dir calls = list_all (\<lambda>c. list_all (lies_in dir) (paths_of c)) calls"

text \<open>The wake-up interval of the object and the one in the state file are in range.\<close>

definition file_wakeup_ok :: "state_file \<Rightarrow> bool" where
  "file_wakeup_ok disk =
     (case disk of
        Some (Json obj) \<Rightarrow> (case p_bgWakeupSec obj of Some w \<Rightarrow> wakeup_in_range w | None \<Rightarrow> True)
      | _ \<Rightarrow> True)"

definition wakeup_ok :: "sched \<Rightarrow> bool" where
  "wakeup_ok s \<longleftrightarrow> wakeup_in_range (wakeupSec s) \<and> file_wakeup_ok (state_file s)"


text \<open>A step registers a timeout when it draws a fresh handle.\<close>

definition schedules :: "sched \<Rightarrow> sched \<Rightarrow> bool" where
  "schedules s s' \<longleftrightarrow> next_handle s' \<noteq> next_handle s"

text \<open>The modes of the episodes announced in the event log, in order.\<close>

fun wake_modes :: "LogEntry list \<Rightarrow> mode list" where
  "wake_modes [] = []"
| "wake_modes (consciousness_wake ts m w h # es) = m # wake_modes es"
| "wake_modes (e # es) = wake_modes es"

section \<open>Sample inputs\<close>

definition env0 :: env where
  "env0 = \<lparr> clock_ms = 1700000000000, clock_iso = ''2023-11-14T22:13:20.000Z'',
            uuid = ''00000000-0000-4000-8000-000000000000'', commit_hours = 1 \<rparr>"

definition config0 :: AppConfig where
  "config0 = \<lparr> budgetLimitUsd = 0, bgBudgetPct = 10, defaultWakeupSec = 300, deepMode = True \<rparr>"

definition partial0 :: PartialState where
  "partial0 = \<lparr> p_createdAt = None, p_sessionId = None, p_spentUsd = Some 5,
     p_spentCalls = None, p_spentTokensPrompt = None, p_spentTokensCompletion = None,
     p_currentBranch = None, p_currentSha = None, p_bgEnabled = None,
     p_bgWakeupSec = None, p_lastInteractionAt = None \<rparr>"

definition config_light :: AppConfig where
  "config_light = \<lparr> budgetLimitUsd = 0, bgBudgetPct = 10, defaultWakeupSec = 300, deepMode = False \<rparr>"

text \<open>
  A scheduler just started with no state file; the same after its first timeout has fired
  and a light episode is in flight; after two complete ticks, with and without the
  feature \<open>deepMode\<close>.
\<close>

definition sched_idle :: sched where
  "sched_idle = start env0 (constructor config0 None)"

definition sched_ticking :: sched where
  "sched_ticking = fst (timer_fires config0 env0 0 sched_idle)"

definition two_ticks :: "action list" where
  "two_ticks = [Start, Fire 0, Finish Light (Returned 0 0), Fire 1, Finish Light (Returned 0 0)]"

definition sched_two_ticks :: sched where
  "sched_two_ticks = run config0 env0 two_ticks (constructor config0 None)"

definition sched_light_two_ticks :: sched where
  "sched_light_two_ticks = run config_light env0 two_ticks (constructor config_light None)"

definition twelve_ticks :: "action list" where
  "twelve_ticks =
     [Start,
      Fire 0, Finish Light (Returned 0 0), Fire 1, Finish Light (Returned 0 0),
      Fire 2, Finish Deep (Returned 0 0),
      Fire 3, Finish Light (Returned 0 0), Fire 4, Finish Light (Returned 0 0),
      Fire 5, Finish Deep (Returned 0 0),
      Fire 6, Finish Light (Returned 0 0), Fire 7, Finish Light (Returned 0 0),
      Fire 8, Finish Deep (Returned 0 0),
      Fire 9, Finish Light (Returned 0 0), Fire 10, Finish Light (Returned 0 0),
      Fire 11, Finish Deep (Returned 0 0)]"

text \<open>A foreground message that begins and ends while an episode is in flight.\<close>

definition resume_in_flight :: "action list" where
  "resume_in_flight = [Start, Fire 0, Pause, Resume, Finish Light (Returned 0 0)]"

section \<open>Properties of the budget ledger\<close>

lemma spread_stringify: "spread d (stringify st) = st"
  by (simp add: spread_def stringify_def)

lemma loadState_saved: "loadState e (saveState disk st) = (st, saveState disk st)"
  by (simp add: loadState_def saveState_def spread_stringify)

lemma updateBudget_file:
  "snd (updateBudget e disk c n p q) = Some (Json (stringify (fst (updateBudget e disk c n p q))))"
  by (simp add: updateBudget_def saveState_def Let_def split: prod.splits)

lemma updateBudget_spent:
  "spentUsd (fst (updateBudget e disk c n p q)) = spentUsd (fst (loadState e disk)) + c"
  "spentCalls (fst (updateBudget e disk c n p q)) = spentCalls (fst (loadState e disk)) + n"
  by (simp_all add: updateBudget_def Let_def split: prod.splits)

lemma loadState_counters_env:
  "spentUsd (fst (loadState e disk)) = spentUsd (fst (loadState e' disk))"
  "spentCalls (fst (loadState e disk)) = spentCalls (fst (loadState e' disk))"
  by (simp_all add: loadState_def spread_def defaultState_def Let_def
      split: option.splits state_json.splits)

lemma loadState_updateBudget:
  "loadState e' (snd (updateBudget e disk c n p q)) =
     (fst (updateBudget e disk c n p q), snd (updateBudget e disk c n p q))"
  by (simp add: updateBudget_file loadState_def spread_stringify)

text \<open>
  Claim C6.  Two updates of the ledger in a row add up: starting from the spend and the
  call count that \<open>loadState\<close> reads from the file (zero when there is no readable file),
  \<open>updateBudget c1 n1\<close> followed by \<open>updateBudget c2 n2\<close> returns spend \<open>s + c1 + c2\<close> and
  calls \<open>k + n1 + n2\<close>; each update returns the state it has written, and loading the file
  again, at any later time, gives back exactly that state and leaves the file alone.
\<close>

theorem budget_updates_add_and_persist:
  fixes c1 n1 c2 n2 :: number
  shows
  "spentUsd (fst (updateBudget e2 (snd (updateBudget e1 disk c1 n1 p1 q1)) c2 n2 p2 q2)) =
     spentUsd (fst (loadState e0 disk)) + c1 + c2 \<and>
   spentCalls (fst (updateBudget e2 (snd (updateBudget e1 disk c1 n1 p1 q1)) c2 n2 p2 q2)) =
     spentCalls (fst (loadState e0 disk)) + n1 + n2 \<and>
   spentUsd (fst (updateBudget e1 disk c1 n1 p1 q1)) = spentUsd (fst (loadState e0 disk)) + c1 \<and>
   spentCalls (fst (updateBudget e1 disk c1 n1 p1 q1)) = spentCalls (fst (loadState e0 disk)) + n1 \<and>
   loadState e3 (snd (updateBudget e1 disk c1 n1 p1 q1)) =
     (fst (updateBudget e1 disk c1 n1 p1 q1), snd (updateBudget e1 disk c1 n1 p1 q1)) \<and>
   loadState e4 (snd (updateBudget e2 (snd (updateBudget e1 disk c1 n1 p1 q1)) c2 n2 p2 q2)) =
     (fst (updateBudget e2 (snd (updateBudget e1 disk c1 n1 p1 q1)) c2 n2 p2 q2),
      snd (updateBudget e2 (snd (updateBudget e1 disk c1 n1 p1 q1)) c2 n2 p2 q2))"
proof -
  let ?u1 = "updateBudget e1 disk c1 n1 p1 q1"
  let ?u2 = "updateBudget e2 (snd ?u1) c2 n2 p2 q2"
  have first_usd: "spentUsd (fst ?u1) = spentUsd (fst (loadState e0 disk)) + c1"
    using updateBudget_spent(1) [of e1 disk c1 n1 p1 q1] loadState_counters_env(1) [of e1 disk e0]
    by simp
  have first_calls: "spentCalls (fst ?u1) = spentCalls (fst (loadState e0 disk)) + n1"
    using updateBudget_spent(2) [of e1 disk c1 n1 p1 q1] loadState_counters_env(2) [of e1 disk e0]
    by simp
  have reload1: "loadState e2 (snd ?u1) = (fst ?u1, snd ?u1)"
    by (rule loadState_updateBudget)
  have second_usd: "spentUsd (fst ?u2) = spentUsd (fst ?u1) + c2"
    using updateBudget_spent(1) [of e2 "snd ?u1" c2 n2 p2 q2] reload1 by simp
  have second_calls: "spentCalls (fst ?u2) = spentCalls (fst ?u1) + n2"
    using updateBudget_spent(2) [of e2 "snd ?u1" c2 n2 p2 q2] reload1 by simp
  show ?thesis
    using first_usd first_calls second_usd second_calls
      loadState_updateBudget [of e3 e1 disk c1 n1 p1 q1]
      loadState_updateBudget [of e4 e2 "snd ?u1" c2 n2 p2 q2]
    by simp
qed

theorem budget_updates_add_and_persist_witness:
  "spentUsd (fst (updateBudget env0 (snd (updateBudget env0 None (1/4) 2 0 0)) (1/2) 3 0 0)) = 3/4 \<and>
   spentCalls (fst (updateBudget env0 (snd (updateBudget env0 None (1/4) 2 0 0)) (1/2) 3 0 0)) = 5 \<and>
   fst (loadState env0 (snd (updateBudget env0 (snd (updateBudget env0 None (1/4) 2 0 0)) (1/2) 3 0 0))) =
     fst (updateBudget env0 (snd (updateBudget env0 None (1/4) 2 0 0)) (1/2) 3 0 0)"
proof -
  have fresh: "spentUsd (fst (loadState env0 None)) = 0" "spentCalls (fst (loadState env0 None)) = 0"
    by (simp_all add: loadState_def defaultState_def Let_def)
  show ?thesis
    using budget_updates_add_and_persist [of env0 env0 None "1/4" 2 0 0 "1/2" 3 0 0 env0 env0 env0]
      fresh
    by simp
qed

text \<open>
  Claim C10.  \<open>loadState\<close> always returns an object with all eleven fields.  When the file
  parses, every field it holds keeps its value, every field it lacks takes the default, and
  the file is left as it was; only when the file is absent or does not parse is the default
  state returned and written.
\<close>

theorem loadState_merges_with_defaults:
  "all_fields_present (stringify (fst (loadState e disk))) \<and>
   (case disk of
      Some (Json obj) \<Rightarrow>
        merged_fields (defaultState e) obj (fst (loadState e disk)) \<and>
        snd (loadState e disk) = disk
    | _ \<Rightarrow> loadState e disk = (defaultState e, Some (Json (stringify (defaultState e)))))"
proof -
  have present: "all_fields_present (stringify st)" for st
    by (simp add: all_fields_present_def stringify_def)
  have merge: "merged_fields d obj (spread d obj)" for d obj
    by (simp add: merged_fields_def merged_def spread_def split: option.splits)
  show ?thesis
  proof (cases disk)
    case None
    then show ?thesis by (simp add: present loadState_def saveState_def Let_def)
  next
    case (Some j)
    then show ?thesis
      by (cases j) (simp_all add: present merge loadState_def saveState_def Let_def)
  qed
qed

theorem loadState_merges_with_defaults_witness:
  "spentUsd (fst (loadState env0 (Some (Json partial0)))) = 5 \<and>
   bgWakeupSec (fst (loadState env0 (Some (Json partial0)))) = 300 \<and>
   snd (loadState env0 (Some (Json partial0))) = Some (Json partial0) \<and>
   snd (loadState env0 (Some Garbled)) = Some (Json (stringify (defaultState env0)))"
  using loadState_merges_with_defaults [of env0 "Some (Json partial0)"]
    loadState_merges_with_defaults [of env0 "Some Garbled"]
  by (simp add: merged_fields_def merged_def partial0_def defaultState_def)

section \<open>Properties of the file helpers\<close>

lemma tmp_path_neq: "tmp_path pid p \<noteq> p"
proof (cases "p = []")
  case True
  then show ?thesis by (simp add: tmp_path_def)
next
  case False
  then have "p = butlast p @ [last p]" by simp
  then have "last (tmp_path pid p) = last p @ ''.tmp.'' @ pid"
    by (simp add: tmp_path_def)
  moreover have "length (last p @ ''.tmp.'' @ pid) \<noteq> length (last p)" by simp
  ultimately show ?thesis by metis
qed

lemma writeText_completes: "run_calls (writeText pid p c) f p = Some c"
  by (simp add: writeText_def run_calls_def)

lemma writeText_crash:
  "crash_state (writeText pid p c) k n f p = f p \<or>
   crash_state (writeText pid p c) k n f p = Some c"
proof -
  consider "k = 0" | "k = Suc 0" | "k = Suc (Suc 0)" | "3 \<le> k" by linarith
  then show ?thesis
  proof cases
    case 1
    then show ?thesis by (simp add: crash_state_def writeText_def run_calls_def)
  next
    case 2
    then show ?thesis
      using tmp_path_neq [of pid p]
      by (simp add: crash_state_def writeText_def run_calls_def)
  next
    case 3
    then show ?thesis
      using tmp_path_neq [of pid p]
      by (simp add: crash_state_def writeText_def run_calls_def)
  next
    case 4
    then have "crash_state (writeText pid p c) k n f = run_calls (writeText pid p c) f"
      by (simp add: crash_state_def writeText_def)
    then show ?thesis by (simp add: writeText_completes)
  qed
qed

lemma appendJsonl_completes:
  "run_calls (appendJsonl p json) f p =
     Some ((case f p of None \<Rightarrow> [] | Some old \<Rightarrow> old) @ json @ [CHR 0x0A])"
  by (simp add: appendJsonl_def run_calls_def split: option.splits)

lemma temp_then_rename_append:
  "temp_then_rename xs \<Longrightarrow> temp_then_rename ys \<Longrightarrow> temp_then_rename (xs @ ys)"
  by (induction xs rule: temp_then_rename.induct) simp_all

lemma temp_then_rename_writeText: "temp_then_rename (writeText pid p c)"
  using tmp_path_neq [of pid p] by (simp add: writeText_def)

lemma temp_then_rename_updateIndexEntry: "temp_then_rename (updateIndexEntry idx pid kdir f s)"
  by (simp add: updateIndexEntry_def Let_def temp_then_rename_writeText)

section \<open>Properties of the knowledge base\<close>

lemma str_includes_char: "str_includes s [c] \<longleftrightarrow> c \<in> set s"
  by (induction s) auto

lemma split_slash_plain: "CHR ''/'' \<notin> set s \<Longrightarrow> split_slash s = [s]"
  by (induction s) auto

lemma path_join_md:
  assumes "CHR ''/'' \<notin> set s"
  shows "path_join dir (s @ ''.md'') = dir @ [s @ ''.md'']"
proof -
  have "split_slash (s @ ''.md'') = [s @ ''.md'']"
    using assms by (intro split_slash_plain) simp
  moreover have "length (s @ ''.md'') \<ge> 3" by simp
  then have "s @ ''.md'' \<noteq> [] \<and> s @ ''.md'' \<noteq> ''.'' \<and> s @ ''.md'' \<noteq> ''..''"
    by (metis Suc_n_not_le_n length_Cons list.size(3) numeral_3_eq_3 not_less_eq_eq le0)
  ultimately show ?thesis by (simp add: path_join_def enter_def)
qed

lemma path_join_index: "path_join dir ''_index.md'' = dir @ [''_index.md'']"
  by (simp add: path_join_def enter_def)

lemma knowledgeDir_eq: "knowledgeDir dataDir = dataDir @ [''memory'', ''knowledge'']"
  by (simp add: knowledgeDir_def path_join_def enter_def)

lemma sanitizeTopic_Inr:
  assumes "sanitizeTopic topic = Inr s"
  shows "s = trim topic" and "CHR ''/'' \<notin> set s" and "\<not> invalid_topic topic"
  using assms
  by (auto simp add: sanitizeTopic_def invalid_topic_def Let_def str_includes_char
      split: if_splits)

lemma sanitizeTopic_Inl:
  assumes "sanitizeTopic topic = Inl m"
  shows "invalid_topic topic"
    and "m \<in> {''Topic must be a non-empty string'',
              ''Invalid characters in topic: '' @ trim topic,
              ''Invalid topic name: '' @ trim topic @ ''. Use alphanumeric, underscore, hyphen, dot.'',
              ''Reserved topic name: '' @ trim topic}"
  using assms
  by (auto simp add: sanitizeTopic_def invalid_topic_def Let_def str_includes_char
      split: if_splits)

lemma lies_in_child: "lies_in dir (dir @ [x])"
  by (simp add: lies_in_def)

lemma lies_in_tmp: "lies_in dir (tmp_path pid (dir @ [x]))"
  by (simp add: lies_in_def tmp_path_def)

lemma writeText_lies_in: "all_lie_in dir (writeText pid (dir @ [x]) c)"
  by (simp add: all_lie_in_def writeText_def lies_in_child lies_in_tmp) (simp add: lies_in_def)

lemma all_lie_in_append: "all_lie_in dir (xs @ ys) \<longleftrightarrow> all_lie_in dir xs \<and> all_lie_in dir ys"
  by (simp add: all_lie_in_def)

lemma all_lie_in_Cons:
  "all_lie_in dir (c # cs) \<longleftrightarrow> list_all (lies_in dir) (paths_of c) \<and> all_lie_in dir cs"
  by (simp add: all_lie_in_def)

lemma all_lie_in_Nil: "all_lie_in dir []"
  by (simp add: all_lie_in_def)

lemma knowledgeRead_lies_in: "all_lie_in (knowledgeDir dataDir) (snd (knowledgeRead dataDir f topic))"
proof (cases "sanitizeTopic topic")
  case (Inl m)
  then show ?thesis by (simp add: knowledgeRead_def all_lie_in_Nil)
next
  case (Inr s)
  then have "path_join (knowledgeDir dataDir) (s @ ''.md'') = knowledgeDir dataDir @ [s @ ''.md'']"
    using sanitizeTopic_Inr(2) path_join_md by blast
  then show ?thesis
    using Inr
    by (simp add: knowledgeRead_def Let_def all_lie_in_Cons all_lie_in_Nil lies_in_child
        split: option.splits)
qed

lemma updateIndexEntry_lies_in:
  assumes "CHR ''/'' \<notin> set s"
  shows "all_lie_in kdir (updateIndexEntry idx pid kdir f s)"
  using assms
  by (simp add: updateIndexEntry_def Let_def path_join_md path_join_index all_lie_in_Cons
      all_lie_in_append all_lie_in_Nil lies_in_child writeText_lies_in)
     (simp add: lies_in_def)

lemma knowledgeWrite_lies_in:
  "all_lie_in (knowledgeDir dataDir) (snd (knowledgeWrite idx pid dataDir f topic content md))"
proof (cases "sanitizeTopic topic")
  case (Inl m)
  then show ?thesis by (simp add: knowledgeWrite_def all_lie_in_Nil)
next
  case (Inr s)
  then have plain: "CHR ''/'' \<notin> set s" by (rule sanitizeTopic_Inr(2))
  have self: "lies_in (knowledgeDir dataDir) (knowledgeDir dataDir)" by (simp add: lies_in_def)
  show ?thesis
    using Inr plain self
    by (simp add: knowledgeWrite_def Let_def path_join_md all_lie_in_Cons all_lie_in_append
        all_lie_in_Nil lies_in_child writeText_lies_in updateIndexEntry_lies_in
        split: option.splits)
qed

lemma temp_then_rename_knowledgeWrite:
  "temp_then_rename (snd (knowledgeWrite idx pid dataDir f topic content md))"
proof (cases "sanitizeTopic topic")
  case (Inl m)
  then show ?thesis by (simp add: knowledgeWrite_def)
next
  case (Inr s)
  then show ?thesis
    by (simp add: knowledgeWrite_def Let_def temp_then_rename_append temp_then_rename_writeText
        temp_then_rename_updateIndexEntry split: option.splits)
qed

text \<open>
  Claim C7, as the code has it.  \<open>writeText\<close>, and with it \<open>saveState\<close>, \<open>saveScratchpad\<close>,
  \<open>saveIdentity\<close> and every write of \<open>knowledgeWrite\<close>, writes a temporary file beside the
  target and renames it over the target: whatever the moment of a crash, the target holds
  its old text or the whole new text, and once the calls are through it holds the new text.
  \<open>appendLog\<close> does not: it appends the line to the log file in place.
\<close>

theorem writeText_atomic_appendLog_in_place:
  "temp_then_rename (writeText pid p c) \<and>
   old_or_new (f p) (Some c) (crash_state (writeText pid p c) k n f p) \<and>
   run_calls (writeText pid p c) f p = Some c \<and>
   saveState_calls pid dataDir json = writeText pid (statePath dataDir) json \<and>
   saveScratchpad pid dataDir content = writeText pid (memoryPath dataDir ''scratchpad.md'') content \<and>
   saveIdentity pid dataDir content = writeText pid (memoryPath dataDir ''identity.md'') content \<and>
   temp_then_rename (snd (knowledgeWrite idx pid dataDir f topic content md)) \<and>
   appendLog dataDir logName json =
     [Mkdir (butlast (logsPath dataDir logName)),
      AppendFile (logsPath dataDir logName) (json @ [CHR 0x0A])] \<and>
   \<not> temp_then_rename (appendLog dataDir logName json) \<and>
   run_calls (appendLog dataDir logName json) f (logsPath dataDir logName) =
     Some ((case f (logsPath dataDir logName) of None \<Rightarrow> [] | Some old \<Rightarrow> old) @ json @ [CHR 0x0A])"
proof -
  have crash: "old_or_new (f p) (Some c) (crash_state (writeText pid p c) k n f p)"
    using writeText_crash [of pid p c k n f] by (simp add: old_or_new_def)
  have log: "\<not> temp_then_rename (appendLog dataDir logName json)"
    by (simp add: appendLog_def appendJsonl_def)
  show ?thesis
    using crash log
    by (simp add: temp_then_rename_writeText writeText_completes saveState_calls_def
        saveScratchpad_def saveIdentity_def temp_then_rename_knowledgeWrite
        appendLog_def appendJsonl_completes)
       (simp add: appendJsonl_def)
qed

theorem writeText_atomic_appendLog_in_place_witness:
  "crash_state (writeText ''42'' [''data'', ''state'', ''state.json''] ''new'') 1 2
      ((\<lambda>p. None)([''data'', ''state'', ''state.json''] \<mapsto> ''old''))
      [''data'', ''state'', ''state.json''] = Some ''old'' \<and>
   run_calls (writeText ''42'' [''data'', ''state'', ''state.json''] ''new'')
      ((\<lambda>p. None)([''data'', ''state'', ''state.json''] \<mapsto> ''old''))
      [''data'', ''state'', ''state.json''] = Some ''new'' \<and>
   appendLog [''data''] ''events.jsonl'' ''{}'' =
     [Mkdir [''data'', ''logs''], AppendFile [''data'', ''logs'', ''events.jsonl''] (''{}'' @ [CHR 0x0A])]"
proof -
  have stage: "crash_state (writeText ''42'' [''data'', ''state'', ''state.json''] ''new'') 1 2
      ((\<lambda>p. None)([''data'', ''state'', ''state.json''] \<mapsto> ''old''))
      [''data'', ''state'', ''state.json''] \<noteq> Some ''new''"
    by (simp add: crash_state_def writeText_def run_calls_def tmp_path_def)
  have lp: "logsPath [''data''] ''events.jsonl'' = [''data'', ''logs'', ''events.jsonl'']"
    by (simp add: logsPath_def path_join_def enter_def)
  show ?thesis
    using writeText_atomic_appendLog_in_place [where pid = "''42''"
        and p = "[''data'', ''state'', ''state.json'']" and c = "''new''"
        and f = "(\<lambda>p. None)([''data'', ''state'', ''state.json''] \<mapsto> ''old'')"
        and k = 1 and n = 2 and dataDir = "[''data'']" and json = "''{}''"
        and logName = "''events.jsonl''"]
      stage lp
    by (simp add: old_or_new_def)
qed

text \<open>
  Claim C7 as stated fails for the event log: \<open>appendLog\<close> makes one \<open>appendFileSync\<close> on the
  log itself, and a crash after the first character leaves a torn line, which is neither
  the old log nor the log with the new entry.
\<close>

theorem appendLog_torn_line:
  "\<not> temp_then_rename (appendLog [''data''] ''events.jsonl'' ''{}'') \<and>
   \<not> old_or_new None
       (run_calls (appendLog [''data''] ''events.jsonl'' ''{}'') (\<lambda>p. None)
          [''data'', ''logs'', ''events.jsonl''])
       (crash_state (appendLog [''data''] ''events.jsonl'' ''{}'') 1 1 (\<lambda>p. None)
          [''data'', ''logs'', ''events.jsonl''])"
  by (simp add: appendLog_def logsPath_def path_join_def enter_def appendJsonl_def
      crash_state_def run_calls_def old_or_new_def)

text \<open>
  Claim C9.  A topic is invalid exactly when \<open>sanitizeTopic\<close> throws; then \<open>knowledgeRead\<close>
  and \<open>knowledgeWrite\<close> return the warning built from the message of the error and make no
  file-system call.  For every topic whatsoever, each path that the two functions test,
  read, write or rename lies in the knowledge directory.
\<close>

theorem invalid_topic_warned_files_confined:
  "(invalid_topic topic \<longleftrightarrow> (\<exists>m. sanitizeTopic topic = Inl m)) \<and>
   (\<forall>m. sanitizeTopic topic = Inl m \<longrightarrow>
      knowledgeRead dataDir f topic = (''Warning: Invalid topic: '' @ m, []) \<and>
      knowledgeWrite idx pid dataDir f topic content md = (''Warning: Invalid topic: '' @ m, []) \<and>
      m \<in> {''Topic must be a non-empty string'',
            ''Invalid characters in topic: '' @ trim topic,
            ''Invalid topic name: '' @ trim topic @ ''. Use alphanumeric, underscore, hyphen, dot.'',
            ''Reserved topic name: '' @ trim topic}) \<and>
   all_lie_in (knowledgeDir dataDir) (snd (knowledgeRead dataDir f topic)) \<and>
   all_lie_in (knowledgeDir dataDir) (snd (knowledgeWrite idx pid dataDir f topic content md))"
proof -
  have iff: "invalid_topic topic \<longleftrightarrow> (\<exists>m. sanitizeTopic topic = Inl m)"
  proof
    assume bad: "invalid_topic topic"
    show "\<exists>m. sanitizeTopic topic = Inl m"
    proof (cases "sanitizeTopic topic")
      case (Inl m)
      then show ?thesis by blast
    next
      case (Inr s)
      then show ?thesis using sanitizeTopic_Inr(3) bad by blast
    qed
  next
    assume "\<exists>m. sanitizeTopic topic = Inl m"
    then show "invalid_topic topic" using sanitizeTopic_Inl(1) by blast
  qed
  have warn: "knowledgeRead dataDir f topic = (''Warning: Invalid topic: '' @ m, []) \<and>
      knowledgeWrite idx pid dataDir f topic content md = (''Warning: Invalid topic: '' @ m, [])"
    if "sanitizeTopic topic = Inl m" for m
    using that by (simp add: knowledgeRead_def knowledgeWrite_def)
  show ?thesis
    using iff warn sanitizeTopic_Inl(2) [of topic]
      knowledgeRead_lies_in [of dataDir f topic]
      knowledgeWrite_lies_in [of dataDir idx pid f topic content md]
    by blast
qed

theorem invalid_topic_warned_files_confined_witness:
  "invalid_topic ''../../etc/passwd'' \<and>
   knowledgeRead [''data''] (\<lambda>p. None) ''../../etc/passwd'' =
     (''Warning: Invalid topic: Invalid characters in topic: ../../etc/passwd'', []) \<and>
   knowledgeWrite (\<lambda>a b c. ''idx'') ''42'' [''data''] (\<lambda>p. None) ''../../etc/passwd'' ''x'' Overwrite =
     (''Warning: Invalid topic: Invalid characters in topic: ../../etc/passwd'', []) \<and>
   all_lie_in [''data'', ''memory'', ''knowledge'']
     (snd (knowledgeWrite (\<lambda>a b c. ''idx'') ''42'' [''data''] (\<lambda>p. None) ''notes'' ''x'' Append))"
proof -
  have bad: "sanitizeTopic ''../../etc/passwd'' = Inl ''Invalid characters in topic: ../../etc/passwd''"
    by code_simp
  show ?thesis
    using invalid_topic_warned_files_confined [of "''../../etc/passwd''" "[''data'']" "\<lambda>p. None"
        "\<lambda>a b c. ''idx''" "''42''" "''x''" Overwrite]
      invalid_topic_warned_files_confined [of "''notes''" "[''data'']" "\<lambda>p. None"
        "\<lambda>a b c. ''idx''" "''42''" "''x''" Append]
      bad knowledgeDir_eq [of "[''data'']"]
    by simp
qed

section \<open>Properties of the scheduler\<close>

lemmas sched_defs =
  constructor_def start_def stop_def pause_def resume_def scheduleNext_def setTimeout_def
  clearTimeout_def tick_begin_def timer_fires_def think_begin_def thinkDeep_begin_def
  think_end_def think_finish_def tick_catch_def tick_after_def tick_end_def exceeds_def
  appendLog_events_def
  bgBudgetLimit_def DEEP_TICK_INTERVAL_def

lemma sched_idle_fields:
  "running sched_idle" "\<not> paused sched_idle" "timer sched_idle = Some 0"
  "timeouts sched_idle = [(0, 300000)]" "next_handle sched_idle = 1"
  "lastTickAt sched_idle = 0" "tickCount sched_idle = 0" "events sched_idle = []"
  "wakeupSec sched_idle = 300"
  by (simp_all add: sched_idle_def sched_defs config0_def env0_def loadState_def saveState_def
      Let_def split: prod.splits)

lemma sched_ticking_fields:
  "running sched_ticking" "\<not> paused sched_ticking" "timer sched_ticking = None"
  "timeouts sched_ticking = []" "next_handle sched_ticking = 1"
  "lastTickAt sched_ticking = 0" "tickCount sched_ticking = 1"
  "events sched_ticking = [consciousness_wake (clock_iso env0) Light 300 None]"
  "wakeupSec sched_ticking = 300"
  by (simp_all add: sched_ticking_def sched_idle_def sched_defs config0_def env0_def
      loadState_def saveState_def defaultState_def spread_def stringify_def
      Let_def split: prod.splits)

lemma sched_two_ticks_fields:
  "running sched_two_ticks" "\<not> paused sched_two_ticks" "timer sched_two_ticks = Some 2"
  "timeouts sched_two_ticks = [(2, 300000)]" "tickCount sched_two_ticks = 2"
  "spentUsd (fst (loadState env0 (state_file sched_two_ticks))) = 0"
  by code_simp+

lemma sched_light_two_ticks_fields:
  "running sched_light_two_ticks" "\<not> paused sched_light_two_ticks"
  "timer sched_light_two_ticks = Some 2"
  "timeouts sched_light_two_ticks = [(2, 300000)]" "tickCount sched_light_two_ticks = 2"
  "state_file sched_light_two_ticks = state_file sched_two_ticks"
  by code_simp+

lemma twelve_ticks_modes:
  "wake_modes (events (run config0 env0 twelve_ticks (constructor config0 None))) =
     [Light, Light, Deep, Light, Light, Deep, Light, Light, Deep, Light, Light, Deep]"
  by code_simp

text \<open>
  While the event log can be written, \<open>tick\<close> is fulfilled whatever the query did, the
  completion time is recorded, and a running scheduler has a fresh timeout registered and
  its handle stored; an exception of the episode leaves its entry in the log.
\<close>

lemma tick_end_log_writable:
  "fst (tick_end None e m q s) = None"
  "lastTickAt (snd (tick_end None e m q s)) = clock_ms e"
  "running (snd (tick_end None e m q s)) = running s"
  "paused (snd (tick_end None e m q s)) = paused s"
  "wakeupSec (snd (tick_end None e m q s)) = wakeupSec s"
  "running s \<Longrightarrow> timer (snd (tick_end None e m q s)) = Some (next_handle s)"
  "running s \<Longrightarrow>
     timeouts (snd (tick_end None e m q s)) = timeouts s @ [(next_handle s, wakeupSec s * 1000)]"
  "tick_end None e m (Threw message) s =
     (None, tick_after e (s\<lparr> events := events s @ [consciousness_error (clock_iso e) message] \<rparr>))"
  by (cases q;
      simp add: tick_end_def think_end_def think_finish_def tick_catch_def appendLog_events_def
        tick_after_def scheduleNext_def setTimeout_def Let_def)+

text \<open>
  While it cannot, \<open>tick\<close> is rejected: the entry of the episode's end or the entry of its
  error is not written, the completion time is not recorded and no timeout is registered.
\<close>

lemma tick_end_log_fails:
  "fst (tick_end (Some err) e m q s) \<noteq> None"
  "lastTickAt (snd (tick_end (Some err) e m q s)) = lastTickAt s"
  "next_handle (snd (tick_end (Some err) e m q s)) = next_handle s"
  "timer (snd (tick_end (Some err) e m q s)) = timer s"
  "timeouts (snd (tick_end (Some err) e m q s)) = timeouts s"
  "running (snd (tick_end (Some err) e m q s)) = running s"
  "paused (snd (tick_end (Some err) e m q s)) = paused s"
  "wakeupSec (snd (tick_end (Some err) e m q s)) = wakeupSec s"
  "events (snd (tick_end (Some err) e m q s)) = events s"
  by (cases q;
      simp add: tick_end_def think_end_def think_finish_def tick_catch_def appendLog_events_def
        Let_def)+

text \<open>
  Claim C1 fails on the code.  A scheduler is running, its timeout has fired and a light
  episode is in flight: no handle is stored and no timeout is pending.  The query throws
  while the event log cannot be appended to.  The \<open>catch\<close> block of \<open>tick\<close> then throws from its
  own \<open>appendLog\<close>: \<open>tick\<close> is rejected with that error, nothing is logged, the completion time
  stays unrecorded and no timeout is registered, so the scheduler is left running with no
  pending timer.
\<close>

theorem tick_rejected_when_log_append_fails:
  "running sched_ticking \<and> timer sched_ticking = None \<and> timeouts sched_ticking = [] \<and>
   lastTickAt sched_ticking = 0 \<and>
   tick_end (Some ''ENOSPC'') env0 Light (Threw ''boom'') sched_ticking =
     (Some ''ENOSPC'', sched_ticking) \<and>
   step config0 env0 (FinishLogFails Light (Threw ''boom'') ''ENOSPC'') sched_ticking =
     sched_ticking"
  using sched_ticking_fields
  by (simp add: step_def tick_end_def think_end_def tick_catch_def appendLog_events_def)

lemma paused_fire:
  "paused s \<Longrightarrow>
   timer_fires config e h s =
     ((if h \<in> fst ` set (timeouts s) then (clearTimeout h s)\<lparr> timer := None \<rparr> else s), None)"
  by (simp add: timer_fires_def tick_begin_def clearTimeout_def)

lemma paused_step_schedules:
  assumes "paused s" and "schedules s (step config e a s)"
  shows "a = Resume \<or> a = Start \<or> (\<exists>m q. a = Finish m q)"
proof (cases a)
  case Stop
  then show ?thesis
    using assms
    by (simp add: step_def schedules_def stop_def clearTimeout_def Let_def
        split: option.splits prod.splits)
next
  case Pause
  then show ?thesis using assms by (simp add: step_def schedules_def pause_def)
next
  case (Inject x)
  then show ?thesis using assms by (simp add: step_def schedules_def injectObservation_def)
next
  case (SetWakeup x)
  then show ?thesis
    using assms
    by (simp add: step_def schedules_def set_next_wakeup_def onSetWakeup_def Let_def
        split: prod.splits if_splits)
next
  case (Fire h)
  then show ?thesis
    using assms
    by (simp add: step_def schedules_def paused_fire clearTimeout_def split: if_splits)
next
  case (FinishLogFails m q err)
  then show ?thesis
    using assms by (simp add: step_def schedules_def tick_end_log_fails)
qed simp_all

text \<open>
  Claim C2, as the code has it.  \<open>pause\<close> sets the paused flag and nothing else: the handle and
  the registered timeouts stay.  A timeout that fires while the flag is set clears the
  handle and does nothing more: no episode, no log entry, no new timeout.  While the flag
  is set, a new timeout is registered only by \<open>resume\<close>, by \<open>start\<close>, or by the end of an
  episode that is in flight.
\<close>

theorem pause_sets_flag_and_paused_fire_is_noop:
  "pause s = s\<lparr> paused := True \<rparr> \<and>
   timer (pause s) = timer s \<and> timeouts (pause s) = timeouts s \<and>
   (paused s \<longrightarrow>
      timer_fires config e h s =
        ((if h \<in> fst ` set (timeouts s) then (clearTimeout h s)\<lparr> timer := None \<rparr> else s), None) \<and>
      \<not> schedules s (fst (timer_fires config e h s)) \<and>
      events (fst (timer_fires config e h s)) = events s \<and>
      tickCount (fst (timer_fires config e h s)) = tickCount s) \<and>
   (paused s \<and> schedules s (step config e a s) \<longrightarrow>
      a = Resume \<or> a = Start \<or> (\<exists>m q. a = Finish m q))"
proof -
  have fire: "timer_fires config e h s =
        ((if h \<in> fst ` set (timeouts s) then (clearTimeout h s)\<lparr> timer := None \<rparr> else s), None)"
    if "paused s"
    using that by (rule paused_fire)
  have quiet: "\<not> schedules s (fst (timer_fires config e h s)) \<and>
      events (fst (timer_fires config e h s)) = events s \<and>
      tickCount (fst (timer_fires config e h s)) = tickCount s"
    if "paused s"
    using that by (simp add: paused_fire schedules_def clearTimeout_def)
  show ?thesis
    using fire quiet paused_step_schedules [of s config e a]
    by (simp add: pause_def)
qed

theorem pause_sets_flag_and_paused_fire_is_noop_witness:
  "paused (pause sched_idle) \<and> timer (pause sched_idle) = Some 0 \<and>
   timeouts (pause sched_idle) = [(0, 300000)] \<and>
   snd (timer_fires config0 env0 0 (pause sched_idle)) = None \<and>
   timer (fst (timer_fires config0 env0 0 (pause sched_idle))) = None \<and>
   timeouts (fst (timer_fires config0 env0 0 (pause sched_idle))) = [] \<and>
   next_handle (fst (timer_fires config0 env0 0 (pause sched_idle))) = 1 \<and>
   events (fst (timer_fires config0 env0 0 (pause sched_idle))) = [] \<and>
   paused (pause sched_ticking) \<and>
   schedules (pause sched_ticking)
     (step config0 env0 (Finish Light (Returned 0 0)) (pause sched_ticking))"
proof -
  have in_flight: "paused (pause sched_ticking)"
    "schedules (pause sched_ticking)
       (step config0 env0 (Finish Light (Returned 0 0)) (pause sched_ticking))"
    using sched_ticking_fields
    by (simp_all add: step_def schedules_def pause_def tick_end_def think_end_def
        think_finish_def appendLog_events_def tick_after_def scheduleNext_def setTimeout_def)
  show ?thesis
    using pause_sets_flag_and_paused_fire_is_noop [where s = sched_idle and config = config0
        and e = env0 and h = 0 and a = Pause]
      pause_sets_flag_and_paused_fire_is_noop [where s = "pause sched_idle" and config = config0
        and e = env0 and h = 0 and a = Pause]
      pause_sets_flag_and_paused_fire_is_noop [where s = "pause sched_ticking"
        and config = config0 and e = env0 and h = 0 and a = "Finish Light (Returned 0 0)"]
      sched_idle_fields in_flight
    by (simp add: clearTimeout_def)
qed

text \<open>
  Claim C2 as stated fails in its last part: \<open>pause\<close> called while an episode is in flight
  does not keep \<open>tick\<close> from registering the next timeout when the episode ends, with the
  flag still set and \<open>resume\<close> not called.
\<close>

theorem pause_during_episode_still_schedules:
  "paused (pause sched_ticking) \<and>
   timer (pause sched_ticking) = None \<and>
   timeouts (pause sched_ticking) = [] \<and>
   paused (step config0 env0 (Finish Light (Returned 0 0)) (pause sched_ticking)) \<and>
   timer (step config0 env0 (Finish Light (Returned 0 0)) (pause sched_ticking)) = Some 1 \<and>
   timeouts (step config0 env0 (Finish Light (Returned 0 0)) (pause sched_ticking)) = [(1, 300000)] \<and>
   schedules (pause sched_ticking)
     (step config0 env0 (Finish Light (Returned 0 0)) (pause sched_ticking)) \<and>
   Finish Light (Returned 0 0) \<noteq> Resume"
  using sched_ticking_fields
  by (simp add: step_def schedules_def pause_def tick_end_def think_end_def think_finish_def
      appendLog_events_def tick_after_def scheduleNext_def setTimeout_def)




text \<open>
  The stored handle can lose track of the pending timeouts: a \<open>resume\<close> during an episode
  registers one, and the end of the episode registers another over it.  The property above
  says nothing of \<open>resume\<close> in the states that follow.
\<close>

lemma two_timeouts_after_resume_in_flight:
  "timer (run config0 env0 resume_in_flight (constructor config0 None)) = Some 2 \<and>
   timeouts (run config0 env0 resume_in_flight (constructor config0 None)) =
     [(1, 300000), (2, 300000)]"
  by code_simp

text \<open>
  Claim C4.  \<open>isHealthy\<close> is true exactly when the scheduler is not running, or
  \<open>lastTickAt\<close> is still zero, or the time since \<open>lastTickAt\<close> is under three wake-up
  intervals; it is false exactly when the scheduler runs, \<open>lastTickAt\<close> is set and that time
  is at least three intervals.  \<open>lastTickAt\<close> is zero in a new object, is set to the clock by
  the end of a tick and by nothing else; so a new scheduler is healthy, also right after
  \<open>start\<close>.
\<close>

theorem isHealthy_characterised:
  "(isHealthy e s \<longleftrightarrow>
      \<not> running s \<or> lastTickAt s = 0 \<or>
      real_of_int (clock_ms e - lastTickAt s) < 3 * (wakeupSec s * 1000)) \<and>
   (\<not> isHealthy e s \<longleftrightarrow>
      running s \<and> lastTickAt s \<noteq> 0 \<and>
      3 * (wakeupSec s * 1000) \<le> real_of_int (clock_ms e - lastTickAt s)) \<and>
   lastTickAt (constructor config disk) = 0 \<and>
   lastTickAt (start e0 s) = lastTickAt s \<and>
   isHealthy e (constructor config disk) \<and>
   isHealthy e (start e0 (constructor config disk)) \<and>
   ((\<forall>m q. a \<noteq> Finish m q) \<longrightarrow> lastTickAt (step config e0 a s) = lastTickAt s) \<and>
   lastTickAt (step config e0 (Finish m q) s) = clock_ms e0"
proof -
  have health: "isHealthy e s \<longleftrightarrow>
      \<not> running s \<or> lastTickAt s = 0 \<or>
      real_of_int (clock_ms e - lastTickAt s) < 3 * (wakeupSec s * 1000)" for s
    by (simp add: isHealthy_def Let_def)
  have start_keeps: "lastTickAt (start e0 s) = lastTickAt s" for s
    by (simp add: start_def scheduleNext_def setTimeout_def Let_def split: prod.splits)
  have fresh: "lastTickAt (constructor config disk) = 0"
    by (simp add: constructor_def)
  have other: "lastTickAt (step config e0 a s) = lastTickAt s" if "\<forall>m q. a \<noteq> Finish m q"
  proof (cases a)
    case Start
    then show ?thesis by (simp add: step_def start_keeps)
  next
    case Stop
    then show ?thesis
      by (simp add: step_def stop_def clearTimeout_def Let_def split: option.splits prod.splits)
  next
    case Pause
    then show ?thesis by (simp add: step_def pause_def)
  next
    case Resume
    then show ?thesis by (simp add: step_def resume_def scheduleNext_def setTimeout_def Let_def)
  next
    case (Inject x)
    then show ?thesis by (simp add: step_def injectObservation_def)
  next
    case (SetWakeup x)
    then show ?thesis
      by (simp add: step_def set_next_wakeup_def onSetWakeup_def Let_def split: prod.splits)
  next
    case (Fire h)
    then show ?thesis
      by (simp add: step_def timer_fires_def tick_begin_def clearTimeout_def scheduleNext_def
          setTimeout_def think_begin_def thinkDeep_begin_def Let_def split: prod.splits)
  next
    case (Finish m q)
    then show ?thesis using that by simp
  next
    case (FinishLogFails m q err)
    then show ?thesis by (simp add: step_def tick_end_log_fails)
  qed
  have finish: "lastTickAt (step config e0 (Finish m q) s) = clock_ms e0"
    by (simp add: step_def tick_end_log_writable)
  show ?thesis
    using health [of s] health [of "constructor config disk"]
      health [of "start e0 (constructor config disk)"]
      start_keeps [of s] start_keeps [of "constructor config disk"] fresh other finish
    by (simp add: not_less)
qed

theorem isHealthy_characterised_witness:
  "isHealthy env0 sched_idle \<and>
   running (sched_idle\<lparr> lastTickAt := clock_ms env0 - 900000 \<rparr>) \<and>
   \<not> isHealthy env0 (sched_idle\<lparr> lastTickAt := clock_ms env0 - 900000 \<rparr>) \<and>
   isHealthy env0 (sched_idle\<lparr> lastTickAt := clock_ms env0 - 899999 \<rparr>) \<and>
   lastTickAt (step config0 env0 Pause sched_idle) = 0"
  using isHealthy_characterised [of env0 sched_idle config0 None env0 Pause Light "Returned 0 0"]
    isHealthy_characterised [of env0 "sched_idle\<lparr> lastTickAt := clock_ms env0 - 900000 \<rparr>"
      config0 None env0 Pause Light "Returned 0 0"]
    isHealthy_characterised [of env0 "sched_idle\<lparr> lastTickAt := clock_ms env0 - 899999 \<rparr>"
      config0 None env0 Pause Light "Returned 0 0"]
    sched_idle_fields
  by (simp add: env0_def)

text \<open>
  Claim C5, as the code has it.  The deep interval is 3.  A tick that passes the pause and
  budget tests takes the next tick number \<open>n\<close>; its episode is deep when the feature
  \<open>deepMode\<close> is on and \<open>n mod 3 = 0\<close>, and light otherwise.
\<close>

theorem deep_every_third_tick_if_enabled:
  "DEEP_TICK_INTERVAL = 3 \<and>
   (running s \<and> \<not> paused s \<and>
    \<not> exceeds (spentUsd (fst (loadState e (state_file s)))) (bgBudgetLimit config) \<longrightarrow>
      tickCount (fst (tick_begin config e s)) = tickCount s + 1 \<and>
      snd (tick_begin config e s) =
        Some (if deepMode config \<and> (tickCount s + 1) mod 3 = 0 then Deep else Light) \<and>
      wake_modes (events (fst (tick_begin config e s))) =
        wake_modes (events s) @
        [if deepMode config \<and> (tickCount s + 1) mod 3 = 0 then Deep else Light])"
proof -
  have wm: "wake_modes (xs @ [consciousness_wake ts m w h]) = wake_modes xs @ [m]" for xs ts m w h
    by (induction xs rule: wake_modes.induct) simp_all
  show ?thesis
    by (simp add: DEEP_TICK_INTERVAL_def tick_begin_def think_begin_def thinkDeep_begin_def
        wm Let_def split: prod.splits)
qed

theorem deep_every_third_tick_if_enabled_witness:
  "running sched_two_ticks \<and> \<not> paused sched_two_ticks \<and> deepMode config0 \<and>
   tickCount (fst (tick_begin config0 env0 sched_two_ticks)) = 3 \<and>
   snd (tick_begin config0 env0 sched_two_ticks) = Some Deep \<and>
   snd (tick_begin config0 env0 sched_idle) = Some Light \<and>
   wake_modes (events (run config0 env0 twelve_ticks (constructor config0 None))) =
     [Light, Light, Deep, Light, Light, Deep, Light, Light, Deep, Light, Light, Deep]"
proof -
  have budget: "bgBudgetLimit config0 = None" "deepMode config0"
    by (simp_all add: bgBudgetLimit_def config0_def)
  show ?thesis
    using deep_every_third_tick_if_enabled [of sched_two_ticks env0 config0]
      deep_every_third_tick_if_enabled [of sched_idle env0 config0]
      sched_two_ticks_fields sched_idle_fields budget twelve_ticks_modes
    by (simp add: exceeds_def)
qed

text \<open>
  Claim C5 as stated fails when the feature \<open>deepMode\<close> is off: the third tick is light.
\<close>

theorem third_tick_light_without_deepMode:
  "\<not> deepMode config_light \<and>
   running sched_light_two_ticks \<and> \<not> paused sched_light_two_ticks \<and>
   tickCount (fst (timer_fires config_light env0 2 sched_light_two_ticks)) = 3 \<and>
   snd (timer_fires config_light env0 2 sched_light_two_ticks) = Some Light"
  using sched_light_two_ticks_fields sched_two_ticks_fields
  by (simp add: timer_fires_def tick_begin_def clearTimeout_def think_begin_def exceeds_def
      bgBudgetLimit_def config_light_def DEEP_TICK_INTERVAL_def Let_def split: prod.splits)

lemma file_wakeup_ok_load:
  "file_wakeup_ok disk \<longleftrightarrow> wakeup_in_range (bgWakeupSec (fst (loadState e disk)))"
  by (simp add: file_wakeup_ok_def loadState_def spread_def defaultState_def wakeup_in_range_def
      Let_def split: option.splits state_json.splits)

lemma file_wakeup_ok_loaded: "file_wakeup_ok disk \<Longrightarrow> file_wakeup_ok (snd (loadState e disk))"
  by (simp add: file_wakeup_ok_def loadState_def saveState_def stringify_def defaultState_def
      wakeup_in_range_def Let_def split: option.splits state_json.splits)

lemma file_wakeup_ok_save: "file_wakeup_ok (saveState d st) \<longleftrightarrow> wakeup_in_range (bgWakeupSec st)"
  by (simp add: file_wakeup_ok_def saveState_def stringify_def)

lemma file_wakeup_ok_updateBudget:
  "file_wakeup_ok disk \<Longrightarrow> file_wakeup_ok (snd (updateBudget e disk c n p q))"
  using file_wakeup_ok_load [of disk e]
  by (simp add: updateBudget_def Let_def file_wakeup_ok_save split_def)

lemma wakeup_ok_scheduleNext: "wakeup_ok (scheduleNext s) \<longleftrightarrow> wakeup_ok s"
  by (simp add: wakeup_ok_def scheduleNext_def setTimeout_def)

lemma wakeup_ok_tick_end:
  assumes "wakeup_ok s"
  shows "wakeup_ok (snd (tick_end io e m q s))"
proof -
  have logged: "wakeup_ok (snd (appendLog_events io entry t))" if "wakeup_ok t" for entry t
    using that by (cases io) (simp_all add: appendLog_events_def wakeup_ok_def)
  have fin: "wakeup_ok (snd (think_finish io e m c n s))" for c n
  proof -
    have "wakeup_ok (if c > 0
                     then s\<lparr> state_file := snd (updateBudget e (state_file s) c n 0 0) \<rparr>
                     else s)"
      using assms by (simp add: wakeup_ok_def file_wakeup_ok_updateBudget)
    then show ?thesis by (simp add: think_finish_def Let_def logged)
  qed
  have thought: "wakeup_ok (snd (think_end io e m q s))"
    using assms fin by (cases q) (simp_all add: think_end_def)
  have caught: "wakeup_ok (snd (tick_catch io e msg t))" if "wakeup_ok t" for msg t
    using that by (simp add: tick_catch_def logged)
  have after: "wakeup_ok (tick_after e t)" if "wakeup_ok t" for t
    using that by (simp add: tick_after_def wakeup_ok_scheduleNext) (simp add: wakeup_ok_def)
  obtain x s1 where te: "think_end io e m q s = (x, s1)" by (cases "think_end io e m q s")
  with thought have ok1: "wakeup_ok s1" by simp
  show ?thesis
  proof (cases x)
    case None
    with te ok1 show ?thesis by (simp add: tick_end_def after)
  next
    case (Some message)
    obtain y s2 where tc: "tick_catch io e message s1 = (y, s2)"
      by (cases "tick_catch io e message s1")
    with caught [OF ok1, of message] have ok2: "wakeup_ok s2" by simp
    from te Some tc ok2 show ?thesis
      by (cases y) (simp_all add: tick_end_def after)
  qed
qed

lemma wakeup_ok_step:
  assumes "wakeup_ok s"
  shows "wakeup_ok (step config e a s)"
proof -
  from assms have w: "wakeup_in_range (wakeupSec s)" and f: "file_wakeup_ok (state_file s)"
    by (simp_all add: wakeup_ok_def)
  have l: "wakeup_in_range (bgWakeupSec (fst (loadState e (state_file s))))"
    using f file_wakeup_ok_load by blast
  have l': "file_wakeup_ok (snd (loadState e (state_file s)))"
    using f by (rule file_wakeup_ok_loaded)
  show ?thesis
  proof (cases a)
    case Start
    then show ?thesis
      using w l
      by (simp add: step_def start_def wakeup_ok_scheduleNext Let_def assms split_def)
         (simp add: wakeup_ok_def file_wakeup_ok_save)
  next
    case Stop
    then show ?thesis
      using w l
      by (simp add: step_def stop_def clearTimeout_def wakeup_ok_def file_wakeup_ok_save Let_def
          split_def split: option.splits)
  next
    case Pause
    then show ?thesis using assms by (simp add: step_def pause_def wakeup_ok_def)
  next
    case Resume
    then show ?thesis
      using assms
      by (simp add: step_def resume_def wakeup_ok_scheduleNext Let_def) (simp add: wakeup_ok_def)
  next
    case (Inject x)
    then show ?thesis using assms by (simp add: step_def injectObservation_def wakeup_ok_def)
  next
    case (SetWakeup sec)
    then show ?thesis
      using assms
      by (simp add: step_def set_next_wakeup_def onSetWakeup_def wakeup_ok_def
          file_wakeup_ok_save wakeup_in_range_def Let_def split_def)
  next
    case (Fire h)
    have cleared: "wakeup_ok ((clearTimeout h s)\<lparr> timer := None \<rparr>)"
      using assms by (simp add: wakeup_ok_def clearTimeout_def)
    have begun: "wakeup_ok (fst (tick_begin config e t))" if "wakeup_ok t" for t
    proof -
      from that have "file_wakeup_ok (snd (loadState e (state_file t)))"
        by (simp add: wakeup_ok_def file_wakeup_ok_loaded)
      with that show ?thesis
        by (simp add: tick_begin_def wakeup_ok_scheduleNext think_begin_def thinkDeep_begin_def
            Let_def split_def)
           (simp add: wakeup_ok_def)
    qed
    show ?thesis
      using Fire assms begun [OF cleared]
      by (simp add: step_def timer_fires_def)
  next
    case (Finish m q)
    then show ?thesis using assms by (simp add: step_def wakeup_ok_tick_end)
  next
    case (FinishLogFails m q err)
    then show ?thesis using assms by (simp add: step_def wakeup_ok_tick_end)
  qed
qed

text \<open>
  Claim C8, as the code has it.  The tool \<open>set_next_wakeup\<close> accepts exactly the intervals
  from 30 to 7200 seconds and stores an accepted one in the object and in the state file;
  the default of a new state file, 300, is in range; and once both the object's interval
  and the file's are in range, every step of the scheduler keeps them there.  The
  constructor takes \<open>defaultWakeupSec\<close> as configured, and \<open>loadState\<close> returns the interval
  of the file, in range or not.
\<close>

theorem wakeup_range_enforced_by_tool_only:
  "(case set_next_wakeup e sec s of
      Inl err \<Rightarrow> \<not> wakeup_in_range sec
    | Inr s' \<Rightarrow>
        wakeup_in_range sec \<and> wakeupSec s' = sec \<and>
        bgWakeupSec (fst (loadState e' (state_file s'))) = sec) \<and>
   wakeup_in_range (bgWakeupSec (defaultState e)) \<and>
   wakeupSec (constructor config disk) = defaultWakeupSec config \<and>
   (file_wakeup_ok disk \<longleftrightarrow> wakeup_in_range (bgWakeupSec (fst (loadState e disk)))) \<and>
   (wakeup_ok s \<longrightarrow> wakeup_ok (step config e a s))"
proof -
  have tool: "case set_next_wakeup e sec s of
      Inl err \<Rightarrow> \<not> wakeup_in_range sec
    | Inr s' \<Rightarrow>
        wakeup_in_range sec \<and> wakeupSec s' = sec \<and>
        bgWakeupSec (fst (loadState e' (state_file s'))) = sec"
    by (simp add: set_next_wakeup_def onSetWakeup_def wakeup_in_range_def loadState_saved
        Let_def split_def)
  have dflt: "wakeup_in_range (bgWakeupSec (defaultState e))"
    by (simp add: defaultState_def wakeup_in_range_def)
  show ?thesis
    using tool dflt file_wakeup_ok_load [of disk e] wakeup_ok_step [of s config e a]
    by (simp add: constructor_def)
qed

theorem wakeup_range_enforced_by_tool_only_witness:
  "wakeup_ok sched_idle \<and>
   wakeup_ok (step config0 env0 (SetWakeup 60) sched_idle) \<and>
   wakeupSec (step config0 env0 (SetWakeup 60) sched_idle) = 60 \<and>
   wakeupSec (step config0 env0 (SetWakeup 5) sched_idle) = 300 \<and>
   set_next_wakeup env0 5 sched_idle = Inl ''Invalid arguments''"
proof -
  have ok: "wakeup_ok sched_idle"
    by (simp add: wakeup_ok_def wakeup_in_range_def file_wakeup_ok_def sched_idle_def sched_defs
        config0_def loadState_def saveState_def stringify_def defaultState_def Let_def
        split: prod.splits)
  have tool: "set_next_wakeup env0 5 sched_idle = Inl ''Invalid arguments''"
    "wakeupSec (step config0 env0 (SetWakeup 60) sched_idle) = 60"
    by (simp_all add: step_def set_next_wakeup_def onSetWakeup_def Let_def split: prod.splits)
  show ?thesis
    using wakeup_range_enforced_by_tool_only [where s = sched_idle and config = config0
        and e = env0 and a = "SetWakeup 60" and sec = 60]
      ok tool sched_idle_fields
    by (simp add: step_def)
qed

text \<open>
  Claim C8 as stated fails: \<open>loadState\<close> returns an interval of 5 seconds from a file that
  holds it, and the constructor takes an interval of 1 second from the configuration.
\<close>

theorem wakeup_out_of_range_accepted:
  "bgWakeupSec (fst (loadState env0 (Some (Json (partial0\<lparr> p_bgWakeupSec := Some 5 \<rparr>))))) = 5 \<and>
   \<not> wakeup_in_range 5 \<and>
   wakeupSec (constructor (config0\<lparr> defaultWakeupSec := 1 \<rparr>) None) = 1 \<and>
   \<not> wakeup_in_range 1"
  by (simp add: loadState_def spread_def partial0_def constructor_def config0_def
      wakeup_in_range_def)

end
